theory Spec2Isabelle
  imports Main "HOL-Library.Word"
begin

unbundle bit_operations_syntax

section \<open>ntl::Sockaddr (ntlSockaddr.hpp): storage and platform layout\<close>

text \<open>
  The class holds one member, \<open>SOCKADDR_STORAGE saddr\<close>, and every method reinterprets
  that buffer as \<open>SOCKADDR_IN\<close> or \<open>SOCKADDR_IN6\<close>.  The buffer is a list of bytes; the
  structures of the Winsock headers (which the repository includes but does not contain)
  are given by their sizes and field offsets on the little-endian Windows ABI.
\<close>

type_synonym byte = "8 word"
type_synonym WCHAR = "16 word"

datatype ByteOrder = HostOrder | NetworkOrder

datatype error = FatalCondition

record Sockaddr =
  saddr :: "byte list"

text \<open>Constants and offsets of the Winsock headers (ws2def.h, ws2ipdef.h).\<close>

definition AF_UNSPEC :: "16 word" where "AF_UNSPEC = 0"
definition AF_INET :: "16 word" where "AF_INET = 2"
definition AF_INET6 :: "16 word" where "AF_INET6 = 23"

definition SADDR_SIZE :: nat where "SADDR_SIZE = 128"
definition IP_STRING_MAX_LENGTH :: nat where "IP_STRING_MAX_LENGTH = 65"

definition off_family :: nat where "off_family = 0"
definition off_port :: nat where "off_port = 2"
definition off_sin_addr :: nat where "off_sin_addr = 4"
definition off_sin6_flowinfo :: nat where "off_sin6_flowinfo = 4"
definition off_sin6_addr :: nat where "off_sin6_addr = 8"
definition off_sin6_scope_id :: nat where "off_sin6_scope_id = 24"

text \<open>Little-endian loads and stores of 16- and 32-bit fields.\<close>

definition load16 :: "byte list \<Rightarrow> nat \<Rightarrow> 16 word" where
  "load16 buf off = ucast (buf ! off) OR push_bit 8 (ucast (buf ! (off + 1)))"

definition store16 :: "byte list \<Rightarrow> nat \<Rightarrow> 16 word \<Rightarrow> byte list" where
  "store16 buf off v = buf[off := ucast v, off + 1 := ucast (drop_bit 8 v)]"

definition load32 :: "byte list \<Rightarrow> nat \<Rightarrow> 32 word" where
  "load32 buf off =
     ucast (buf ! off) OR push_bit 8 (ucast (buf ! (off + 1)))
       OR push_bit 16 (ucast (buf ! (off + 2))) OR push_bit 24 (ucast (buf ! (off + 3)))"

definition store32 :: "byte list \<Rightarrow> nat \<Rightarrow> 32 word \<Rightarrow> byte list" where
  "store32 buf off v =
     buf[off := ucast v, off + 1 := ucast (drop_bit 8 v),
         off + 2 := ucast (drop_bit 16 v), off + 3 := ucast (drop_bit 24 v)]"

text \<open>\<open>ZeroMemory\<close>, \<open>CopyMemory\<close> and \<open>memcmp(..) == 0\<close> on the first \<open>n\<close> bytes.\<close>

definition ZeroMemory :: "byte list \<Rightarrow> nat \<Rightarrow> byte list" where
  "ZeroMemory dst n = replicate n 0 @ drop n dst"

definition CopyMemory :: "byte list \<Rightarrow> byte list \<Rightarrow> nat \<Rightarrow> byte list" where
  "CopyMemory dst src n = take n src @ drop n dst"

definition memcmp_eq :: "byte list \<Rightarrow> byte list \<Rightarrow> nat \<Rightarrow> bool" where
  "memcmp_eq a b n = (take n a = take n b)"

text \<open>\<open>htons\<close> and \<open>ntohs\<close> on a little-endian host: the two bytes are exchanged.\<close>

definition htons :: "16 word \<Rightarrow> 16 word" where
  "htons v = push_bit 8 v OR drop_bit 8 v"

definition ntohs :: "16 word \<Rightarrow> 16 word" where
  "ntohs v = push_bit 8 v OR drop_bit 8 v"

section \<open>Accessors\<close>

definition family :: "Sockaddr \<Rightarrow> 16 word" where
  "family this = load16 (saddr this) off_family"

definition sin_port :: "Sockaddr \<Rightarrow> 16 word" where
  "sin_port this = load16 (saddr this) off_port"

definition port :: "Sockaddr \<Rightarrow> 16 word" where
  "port this = ntohs (sin_port this)"

definition flowinfo :: "Sockaddr \<Rightarrow> 32 word" where
  "flowinfo this =
     (if AF_INET6 = family this then load32 (saddr this) off_sin6_flowinfo else 0)"

definition scopeId :: "Sockaddr \<Rightarrow> 32 word" where
  "scopeId this =
     (if AF_INET6 = family this then load32 (saddr this) off_sin6_scope_id else 0)"

definition in_addr :: "Sockaddr \<Rightarrow> byte list" where
  "in_addr this = take 4 (drop off_sin_addr (saddr this))"

definition in6_addr :: "Sockaddr \<Rightarrow> byte list" where
  "in6_addr this = take 16 (drop off_sin6_addr (saddr this))"

section \<open>Mutators\<close>

definition setPort :: "16 word \<Rightarrow> ByteOrder \<Rightarrow> Sockaddr \<Rightarrow> Sockaddr" where
  "setPort port_v order this =
     this\<lparr>saddr := store16 (saddr this) off_port
                      (if order = HostOrder then htons port_v else port_v)\<rparr>"

definition setFlowInfo :: "32 word \<Rightarrow> Sockaddr \<Rightarrow> Sockaddr" where
  "setFlowInfo flowinfo_v this =
     (if AF_INET6 = family this
      then this\<lparr>saddr := store32 (saddr this) off_sin6_flowinfo flowinfo_v\<rparr>
      else this)"

definition setScopeId :: "32 word \<Rightarrow> Sockaddr \<Rightarrow> Sockaddr" where
  "setScopeId scopeid this =
     (if AF_INET6 = family this
      then this\<lparr>saddr := store32 (saddr this) off_sin6_scope_id scopeid\<rparr>
      else this)"

section \<open>Construction, assignment, comparison\<close>

text \<open>\<open>Sockaddr(short family)\<close>: a fresh buffer of \<open>SADDR_SIZE\<close> bytes is zeroed and tagged.\<close>

definition Sockaddr_family :: "16 word \<Rightarrow> Sockaddr" where
  "Sockaddr_family fam =
     \<lparr>saddr = store16 (ZeroMemory (replicate SADDR_SIZE 0) SADDR_SIZE) off_family fam\<rparr>"

text \<open>\<open>Sockaddr(const Sockaddr&)\<close>: copies \<open>SADDR_SIZE\<close> bytes into the new object.\<close>

definition Sockaddr_copy :: "Sockaddr \<Rightarrow> Sockaddr" where
  "Sockaddr_copy inAddr =
     \<lparr>saddr = CopyMemory (replicate SADDR_SIZE 0) (saddr inAddr) SADDR_SIZE\<rparr>"

text \<open>
  \<open>Sockaddr(Sockaddr&&)\<close> and \<open>operator=(Sockaddr&&)\<close>.  Both touch two objects, so each
  returns the pair (destination, source) as they are after the call.
\<close>

definition Sockaddr_move :: "Sockaddr \<Rightarrow> Sockaddr \<times> Sockaddr" where
  "Sockaddr_move inAddr =
     (\<lparr>saddr = CopyMemory (replicate SADDR_SIZE 0) (saddr inAddr) SADDR_SIZE\<rparr>, inAddr)"

definition move_assign :: "Sockaddr \<Rightarrow> Sockaddr \<Rightarrow> Sockaddr \<times> Sockaddr" where
  "move_assign this inAddr =
     (this\<lparr>saddr := CopyMemory (saddr this) (saddr inAddr) SADDR_SIZE\<rparr>,
      inAddr\<lparr>saddr := ZeroMemory (saddr inAddr) SADDR_SIZE\<rparr>)"

definition Sockaddr_eq :: "Sockaddr \<Rightarrow> Sockaddr \<Rightarrow> bool" where
  "Sockaddr_eq this inAddr = memcmp_eq (saddr this) (saddr inAddr) SADDR_SIZE"

definition reset :: "16 word \<Rightarrow> Sockaddr \<Rightarrow> Sockaddr" where
  "reset fam this =
     this\<lparr>saddr := store16 (ZeroMemory (saddr this) SADDR_SIZE) off_family fam\<rparr>"

definition swap_saddr :: "Sockaddr \<Rightarrow> Sockaddr \<Rightarrow> Sockaddr \<times> Sockaddr" where
  "swap_saddr this inAddr = (this\<lparr>saddr := saddr inAddr\<rparr>, inAddr\<lparr>saddr := saddr this\<rparr>)"

text \<open>
  \<open>setSockaddr(const SOCKADDR*, int)\<close>.  The comparison \<open>inLength <= SADDR_SIZE\<close> is made
  in \<open>size_t\<close>, so a negative \<open>int\<close> is first converted to a huge unsigned value.
\<close>

definition size_t_of_int :: "int \<Rightarrow> nat" where
  "size_t_of_int i = nat (i mod 2 ^ 64)"

definition setSockaddr :: "byte list \<Rightarrow> int \<Rightarrow> Sockaddr \<Rightarrow> Sockaddr" where
  "setSockaddr inAddr inLength this =
     (let len = (if size_t_of_int inLength \<le> SADDR_SIZE
                 then size_t_of_int inLength else SADDR_SIZE);
          zeroed = ZeroMemory (saddr this) SADDR_SIZE
      in this\<lparr>saddr := CopyMemory zeroed inAddr len\<rparr>)"

section \<open>Loopback and wildcard addresses\<close>

text \<open>
  \<open>ntl::AlwaysFatalCondition\<close> ends the process; the call is the value
  \<open>Inl FatalCondition\<close>.
\<close>

definition setAddressLoopback :: "Sockaddr \<Rightarrow> error + Sockaddr" where
  "setAddressLoopback this =
     (if AF_INET = family this then
        (let in4_port = sin_port this;
             b0 = ZeroMemory (saddr this) SADDR_SIZE;
             b1 = store16 b0 off_family AF_INET;
             b2 = store16 b1 off_port in4_port;
             b3 = store32 b2 off_sin_addr 0x0100007f
         in Inr (this\<lparr>saddr := b3\<rparr>))
      else if AF_INET6 = family this then
        (let in6_port = sin_port this;
             b0 = ZeroMemory (saddr this) SADDR_SIZE;
             b1 = store16 b0 off_family AF_INET6;
             b2 = store16 b1 off_port in6_port;
             b3 = b2[off_sin6_addr + 15 := 1]
         in Inr (this\<lparr>saddr := b3\<rparr>))
      else Inl FatalCondition)"

definition setAddressAny :: "Sockaddr \<Rightarrow> Sockaddr" where
  "setAddressAny this =
     (if AF_INET = family this then
        (let in4_port = sin_port this;
             b0 = ZeroMemory (saddr this) SADDR_SIZE;
             b1 = store16 b0 off_family AF_INET;
             b2 = store16 b1 off_port in4_port
         in this\<lparr>saddr := b2\<rparr>)
      else if AF_INET6 = family this then
        (let in6_port = sin_port this;
             b0 = ZeroMemory (saddr this) SADDR_SIZE;
             b1 = store16 b0 off_family AF_INET6;
             b2 = store16 b1 off_port in6_port
         in this\<lparr>saddr := b2\<rparr>)
      else this)"

text \<open>
  The two queries are \<open>const\<close> methods working on a scratch copy.  Each returns its answer
  together with the instance as it is after the call.
\<close>

definition isAddressLoopback :: "Sockaddr \<Rightarrow> error + (bool \<times> Sockaddr)" where
  "isAddressLoopback this =
     (let loopback = Sockaddr_copy this
      in case setAddressLoopback loopback of
           Inl e \<Rightarrow> Inl e
         | Inr loopback' \<Rightarrow>
             Inr (memcmp_eq (saddr loopback') (saddr this) SADDR_SIZE, this))"

definition isAddressAny :: "Sockaddr \<Rightarrow> bool \<times> Sockaddr" where
  "isAddressAny this =
     (let any_addr = setAddressAny (Sockaddr_copy this)
      in (memcmp_eq (saddr any_addr) (saddr this) SADDR_SIZE, this))"

section \<open>Dual-mode mapping\<close>

definition IN6ADDR_V4MAPPEDPREFIX_INIT :: "byte list" where
  "IN6ADDR_V4MAPPEDPREFIX_INIT = [0, 0, 0, 0, 0, 0, 0, 0, 0, 0, 0xff, 0xff, 0, 0, 0, 0]"

definition write_bytes :: "byte list \<Rightarrow> nat \<Rightarrow> byte list \<Rightarrow> byte list" where
  "write_bytes buf off bs = take off buf @ bs @ drop (off + length bs) buf"

definition mapDualMode4To6 :: "Sockaddr \<Rightarrow> Sockaddr" where
  "mapDualMode4To6 this =
     (let tempV6 = Sockaddr_family AF_INET6;
          t0 = write_bytes (saddr tempV6) off_sin6_addr IN6ADDR_V4MAPPEDPREFIX_INIT;
          t1 = t0[off_sin6_addr + 12 := saddr this ! off_sin_addr];
          t2 = t1[off_sin6_addr + 13 := saddr this ! (off_sin_addr + 1)];
          t3 = t2[off_sin6_addr + 14 := saddr this ! (off_sin_addr + 2)];
          t4 = t3[off_sin6_addr + 15 := saddr this ! (off_sin_addr + 3)];
          tempV6' = setPort (port this) HostOrder (tempV6\<lparr>saddr := t4\<rparr>)
      in fst (swap_saddr this tempV6'))"

section \<open>Setting the address from text\<close>

text \<open>
  \<open>GetAddrInfoW\<close>/\<open>GetAddrInfoA\<close> belong to the operating system.  The call made by
  \<open>setAddress\<close> (no service name, hint \<open>AI_NUMERICHOST\<close>) is a parameter: \<open>None\<close> is a
  non-zero return value, \<open>Some r\<close> the first result record.
\<close>

record ADDRINFO =
  ai_addr :: "byte list"
  ai_addrlen :: nat

definition static_cast_int :: "nat \<Rightarrow> int" where
  "static_cast_int n = sint (word_of_nat n :: 32 word)"

definition setAddress :: "('s \<Rightarrow> ADDRINFO option) \<Rightarrow> 's \<Rightarrow> Sockaddr \<Rightarrow> bool \<times> Sockaddr" where
  "setAddress GetAddrInfo szAddr this =
     (case GetAddrInfo szAddr of
        Some addr_result \<Rightarrow>
          (True, setSockaddr (ai_addr addr_result)
                   (static_cast_int (ai_addrlen addr_result)) this)
      | None \<Rightarrow> (False, this))"

section \<open>Rendering the complete address\<close>

text \<open>
  \<open>std::find(first, last, value)\<close> of the standard library, over positions of the array:
  the first position in \<open>[first, last)\<close> holding \<open>value\<close>, else \<open>last\<close>.  Both calls in
  \<open>writeCompleteAddress\<close> pass \<open>address\<close> and \<open>end\<close>, a valid range.
\<close>

function std_find :: "'a list \<Rightarrow> nat \<Rightarrow> nat \<Rightarrow> 'a \<Rightarrow> nat" where
  "std_find a first_it last_it v =
     (if first_it < last_it \<and> a ! first_it \<noteq> v
      then std_find a (first_it + 1) last_it v else first_it)"
  by pat_completeness auto

termination std_find
  by (relation "measure (\<lambda>(a, first_it, last_it, v). last_it - first_it)") auto

declare std_find.simps [simp del]

text \<open>
  The two \<open>while\<close> loops of \<open>writeCompleteAddress\<close>, pointers as positions in \<open>address\<close>.
  Their guards are inequalities of pointers, so a loop entered with its pointer beyond
  \<open>end\<close> does not stop: the loops are partial, \<open>None\<close> standing for no return.
\<close>

partial_function (option) shift_loop ::
    "WCHAR list \<Rightarrow> nat \<Rightarrow> nat \<Rightarrow> nat \<Rightarrow> WCHAR list option" where
  "shift_loop address scope_ptr move_ptr end_ptr =
     (if move_ptr \<noteq> end_ptr
      then shift_loop (address[scope_ptr := address ! move_ptr])
             (scope_ptr + 1) (move_ptr + 1) end_ptr
      else Some address)"

partial_function (option) zero_loop ::
    "WCHAR list \<Rightarrow> nat \<Rightarrow> nat \<Rightarrow> WCHAR list option" where
  "zero_loop address scope_ptr end_ptr =
     (if scope_ptr \<noteq> end_ptr
      then zero_loop (address[scope_ptr := 0]) (scope_ptr + 1) end_ptr
      else Some address)"

declare shift_loop.simps [code]
declare zero_loop.simps [code]

definition chr_percent :: WCHAR where "chr_percent = 0x25"
definition chr_rbracket :: WCHAR where "chr_rbracket = 0x5D"

text \<open>The body of \<open>if ((this->family() == AF_INET6) && trim_scope)\<close>.\<close>

definition trim_scope_segment :: "WCHAR list \<Rightarrow> nat \<Rightarrow> WCHAR list option" where
  "trim_scope_segment address addressLength =
     (let end_ptr = addressLength;
          scope_ptr = std_find address 0 end_ptr chr_percent
      in if scope_ptr \<noteq> end_ptr then
           (let move_ptr = std_find address 0 end_ptr chr_rbracket
            in if move_ptr \<noteq> end_ptr
               then shift_loop address scope_ptr move_ptr end_ptr
               else zero_loop address scope_ptr end_ptr)
         else Some address)"

text \<open>
  \<open>WSAAddressToStringW\<close> belongs to the operating system and is a parameter: given the
  address structure, its size and the capacity, \<open>None\<close> is a non-zero return value and
  \<open>Some w\<close> the characters it stored at the front of the buffer, their number being the
  value it leaves in \<open>addressLength\<close>.
\<close>

definition writeCompleteAddress ::
    "(byte list \<Rightarrow> nat \<Rightarrow> nat \<Rightarrow> WCHAR list option) \<Rightarrow> Sockaddr \<Rightarrow> bool
       \<Rightarrow> (bool \<times> WCHAR list) option" where
  "writeCompleteAddress WSAAddressToStringW this trim_scope =
     (let zeroed = replicate IP_STRING_MAX_LENGTH 0
      in case WSAAddressToStringW (saddr this) SADDR_SIZE IP_STRING_MAX_LENGTH of
           Some written \<Rightarrow>
             (let address = written @ drop (length written) zeroed;
                  addressLength = length written
              in if family this = AF_INET6 \<and> trim_scope
                 then map_option (Pair True) (trim_scope_segment address addressLength)
                 else Some (True, address))
         | None \<Rightarrow> Some (False, zeroed))"

text \<open>A null-terminated array read as a string, and a string literal as wide characters.\<close>

definition c_str :: "WCHAR list \<Rightarrow> WCHAR list" where
  "c_str a = takeWhile (\<lambda>c. c \<noteq> 0) a"

definition wide :: "string \<Rightarrow> WCHAR list" where
  "wide s = map of_char s"

section \<open>Concrete instances used below\<close>

text \<open>The endpoints 0.0.0.0:8080 and 1.2.3.4:80 as \<open>SOCKADDR_IN\<close> images.\<close>

definition v4_any_8080 :: Sockaddr where
  "v4_any_8080 = setPort 8080 HostOrder (Sockaddr_family AF_INET)"

definition v4_1_2_3_4_port_80 :: Sockaddr where
  "v4_1_2_3_4_port_80 = \<lparr>saddr = [2, 0, 0, 80, 1, 2, 3, 4] @ replicate 120 0\<rparr>"

text \<open>
  A resolver that knows the literal \<open>10.0.0.1\<close>: asked without a service name it answers
  with a \<open>SOCKADDR_IN\<close> of 16 bytes whose port field is zero.
\<close>

definition resolve_10_0_0_1 :: "string \<Rightarrow> ADDRINFO option" where
  "resolve_10_0_0_1 s =
     (if s = ''10.0.0.1''
      then Some \<lparr>ai_addr = [2, 0, 0, 0, 10, 0, 0, 1, 0, 0, 0, 0, 0, 0, 0, 0], ai_addrlen = 16\<rparr>
      else None)"

text \<open>
  The endpoint \<open>[fe80::1%3]:443\<close> as a \<open>SOCKADDR_IN6\<close> image, and a renderer that gives
  its text followed by the terminator, as \<open>WSAAddressToStringW\<close> does.
\<close>

definition v6_fe80_1_scope_3_port_443 :: Sockaddr where
  "v6_fe80_1_scope_3_port_443 =
     \<lparr>saddr = [23, 0, 0x01, 0xBB, 0, 0, 0, 0,
               0xfe, 0x80, 0, 0, 0, 0, 0, 0, 0, 0, 0, 0, 0, 0, 0, 1,
               3, 0, 0, 0] @ replicate 100 0\<rparr>"

definition text_fe80 :: "WCHAR list" where
  "text_fe80 = wide ''[fe80::1%3]:443''"

definition render_fe80 :: "byte list \<Rightarrow> nat \<Rightarrow> nat \<Rightarrow> WCHAR list option" where
  "render_fe80 sa sa_size capacity = Some (text_fe80 @ [0])"

definition buffer_fe80 :: "WCHAR list" where
  "buffer_fe80 = text_fe80 @ 0 # replicate 49 0"

text \<open>
  The same sixteen characters in an array whose remaining positions are not zero, and the
  rendering of the same address with port 0, which has neither brackets nor port.
\<close>

definition buffer_fe80_dirty :: "WCHAR list" where
  "buffer_fe80_dirty = text_fe80 @ 0 # replicate 49 0x41"

definition text_fe80_noport :: "WCHAR list" where
  "text_fe80_noport = wide ''fe80::1%3''"

definition buffer_fe80_noport :: "WCHAR list" where
  "buffer_fe80_noport = text_fe80_noport @ 0 # replicate 55 0"

text \<open>The rendering of \<open>[fe80::1]:443\<close>, an address without scope.\<close>

definition text_fe80_noscope :: "WCHAR list" where
  "text_fe80_noscope = wide ''[fe80::1]:443''"

definition buffer_fe80_noscope :: "WCHAR list" where
  "buffer_fe80_noscope = text_fe80_noscope @ 0 # replicate 51 0"

section \<open>Loads, stores and byte order\<close>

lemma ntohs_htons: "ntohs (htons v) = v"
  unfolding htons_def ntohs_def
  by (rule bit_word_eqI) (auto simp: bit_simps)

lemma length_store16: "length (store16 buf off v) = length buf"
  by (simp add: store16_def)

lemma length_store32: "length (store32 buf off v) = length buf"
  by (simp add: store32_def)

lemma nth_store16_other:
  "i \<noteq> off \<Longrightarrow> i \<noteq> off + 1 \<Longrightarrow> store16 buf off v ! i = buf ! i"
  by (simp add: store16_def)

lemma nth_store16_lo: "off + 1 < length buf \<Longrightarrow> store16 buf off v ! off = ucast v"
  by (simp add: store16_def)

lemma nth_store16_hi:
  "off + 1 < length buf \<Longrightarrow> store16 buf off v ! (off + 1) = ucast (drop_bit 8 v)"
  by (simp add: store16_def)

lemma load16_store16_same:
  "off + 1 < length buf \<Longrightarrow> load16 (store16 buf off v) off = v"
  unfolding load16_def store16_def
  by simp (rule bit_word_eqI, auto simp: bit_simps)

lemma load16_store16_other:
  "off + 1 < off' \<or> off' + 1 < off \<Longrightarrow> load16 (store16 buf off v) off' = load16 buf off'"
  by (auto simp: load16_def store16_def)

lemma ucast_load16_lo: "ucast (load16 buf off) = buf ! off"
  unfolding load16_def
  by (rule bit_word_eqI) (auto simp: bit_simps)

lemma ucast_load16_hi: "ucast (drop_bit 8 (load16 buf off)) = buf ! (off + 1)"
  unfolding load16_def
  by (rule bit_word_eqI) (auto simp: bit_simps dest: bit_imp_le_length)

lemma store16_load16_id:
  "store16 buf off (load16 buf off) = buf"
  by (simp add: store16_def ucast_load16_lo ucast_load16_hi)

lemma htons_bytes:
  "ucast (htons v) = (ucast (drop_bit 8 v) :: byte)"
  "ucast (drop_bit 8 (htons v)) = (ucast v :: byte)"
  unfolding htons_def
  by (rule bit_word_eqI, auto simp: bit_simps)+

lemma ntohs_load16:
  "ntohs (load16 buf off) = push_bit 8 (ucast (buf ! off)) OR ucast (buf ! (off + 1))"
  unfolding ntohs_def load16_def
  by (rule bit_word_eqI) (auto simp: bit_simps dest: bit_imp_le_length)

section \<open>Family-specific fields\<close>

text \<open>
  Claim C6.  Family isolation: on an instance whose family is not \<open>AF_INET6\<close>,
  \<open>flowinfo()\<close> and \<open>scopeId()\<close> return 0, and \<open>setFlowInfo\<close> and \<open>setScopeId\<close> leave the
  whole object as it was, whatever value is passed.
\<close>

theorem family_isolation:
  "family this \<noteq> AF_INET6 \<Longrightarrow>
     flowinfo this = 0 \<and> scopeId this = 0 \<and>
     setFlowInfo v this = this \<and> setScopeId w this = this"
  by (auto simp: flowinfo_def scopeId_def setFlowInfo_def setScopeId_def)

theorem family_isolation_witness:
  "family (Sockaddr_family AF_INET) \<noteq> AF_INET6 \<and>
   flowinfo (Sockaddr_family AF_INET) = 0 \<and> scopeId (Sockaddr_family AF_INET) = 0 \<and>
   setFlowInfo 7 (Sockaddr_family AF_INET) = Sockaddr_family AF_INET \<and>
   setScopeId 3 (Sockaddr_family AF_INET) = Sockaddr_family AF_INET"
proof -
  have h: "family (Sockaddr_family AF_INET) \<noteq> AF_INET6" by code_simp
  show ?thesis using h family_isolation [OF h, of 7 3] by simp
qed

section \<open>The port field\<close>

text \<open>
  Claim C7.  Whatever the family, \<open>setPort(v, HostOrder)\<close> stores \<open>v\<close> in network byte
  order (high byte at offset 2, low byte at offset 3), \<open>setPort(v, NetworkOrder)\<close> stores
  the representation of \<open>v\<close> unchanged, \<open>port()\<close> reads the two bytes at the \<open>sin_port\<close>
  offset and returns them in host order, and \<open>setPort(v, HostOrder)\<close> followed by
  \<open>port()\<close> gives \<open>v\<close>.
\<close>

theorem setPort_port_roundtrip:
  assumes "length (saddr this) = SADDR_SIZE"
  shows "saddr (setPort v HostOrder this) ! 2 = ucast (drop_bit 8 v) \<and>
         saddr (setPort v HostOrder this) ! 3 = ucast v \<and>
         saddr (setPort v NetworkOrder this) ! 2 = ucast v \<and>
         saddr (setPort v NetworkOrder this) ! 3 = ucast (drop_bit 8 v) \<and>
         sin_port (setPort v NetworkOrder this) = v \<and>
         port this = push_bit 8 (ucast (saddr this ! 2)) OR ucast (saddr this ! 3) \<and>
         port (setPort v HostOrder this) = v"
proof -
  have len: "off_port + 1 < length (saddr this)"
    using assms by (simp add: off_port_def SADDR_SIZE_def)
  have host: "saddr (setPort v HostOrder this) ! 2 = ucast (drop_bit 8 v) \<and>
              saddr (setPort v HostOrder this) ! 3 = ucast v"
    using len by (simp add: setPort_def off_port_def store16_def htons_bytes)
  have net: "saddr (setPort v NetworkOrder this) ! 2 = ucast v \<and>
             saddr (setPort v NetworkOrder this) ! 3 = ucast (drop_bit 8 v)"
    using len by (simp add: setPort_def off_port_def store16_def)
  have raw: "sin_port (setPort v NetworkOrder this) = v"
    using len by (simp add: setPort_def sin_port_def load16_store16_same)
  have rd: "port this = push_bit 8 (ucast (saddr this ! 2)) OR ucast (saddr this ! 3)"
    by (simp add: port_def sin_port_def ntohs_load16 off_port_def)
  have rt: "port (setPort v HostOrder this) = v"
    using len by (simp add: setPort_def port_def sin_port_def load16_store16_same ntohs_htons)
  from host net raw rd rt show ?thesis by simp
qed

theorem setPort_port_roundtrip_witness:
  "length (saddr (Sockaddr_family AF_INET6)) = SADDR_SIZE \<and>
   saddr (setPort 8080 HostOrder (Sockaddr_family AF_INET6)) ! 2 = 0x1F \<and>
   saddr (setPort 8080 HostOrder (Sockaddr_family AF_INET6)) ! 3 = 0x90 \<and>
   saddr (setPort 8080 NetworkOrder (Sockaddr_family AF_INET6)) ! 2 = 0x90 \<and>
   saddr (setPort 8080 NetworkOrder (Sockaddr_family AF_INET6)) ! 3 = 0x1F \<and>
   port (setPort 8080 HostOrder (Sockaddr_family AF_INET6)) = 8080"
proof -
  have h: "length (saddr (Sockaddr_family AF_INET6)) = SADDR_SIZE" by code_simp
  have b: "(ucast (drop_bit 8 (8080 :: 16 word)) :: byte) = 0x1F"
          "(ucast (8080 :: 16 word) :: byte) = 0x90" by code_simp+
  show ?thesis
    using h setPort_port_roundtrip [OF h, of 8080] by (simp only: b)
qed

text \<open>
  Claim C10.  \<open>setPort\<close> has no family guard: on every instance, also one of family
  \<open>AF_UNSPEC\<close>, it writes the two bytes at offsets 2 and 3, every other byte and the
  family stay as they were, and the stored port afterwards is the value written, so the
  call changes the object whenever the stored port differed.
\<close>

theorem setPort_frame:
  assumes "length (saddr this) = SADDR_SIZE"
  shows "length (saddr (setPort v order this)) = SADDR_SIZE \<and>
         (\<forall>i < SADDR_SIZE. i \<noteq> 2 \<and> i \<noteq> 3 \<longrightarrow>
              saddr (setPort v order this) ! i = saddr this ! i) \<and>
         family (setPort v order this) = family this \<and>
         sin_port (setPort v order this) = (if order = HostOrder then htons v else v) \<and>
         (sin_port this \<noteq> (if order = HostOrder then htons v else v) \<longrightarrow>
              setPort v order this \<noteq> this)"
proof -
  let ?w = "if order = HostOrder then htons v else v"
  have len: "off_port + 1 < length (saddr this)"
    using assms by (simp add: off_port_def SADDR_SIZE_def)
  have l: "length (saddr (setPort v order this)) = SADDR_SIZE"
    using assms by (simp add: setPort_def length_store16)
  have fr: "\<forall>i < SADDR_SIZE. i \<noteq> 2 \<and> i \<noteq> 3 \<longrightarrow>
              saddr (setPort v order this) ! i = saddr this ! i"
    by (simp add: setPort_def off_port_def store16_def)
  have fam: "family (setPort v order this) = family this"
    by (simp add: setPort_def family_def off_family_def off_port_def load16_store16_other)
  have wr: "sin_port (setPort v order this) = ?w"
    using len by (simp add: setPort_def sin_port_def load16_store16_same)
  have ne: "sin_port this \<noteq> ?w \<longrightarrow> setPort v order this \<noteq> this"
    using wr by metis
  from l fr fam wr ne show ?thesis by blast
qed

theorem setPort_frame_witness:
  "length (saddr (Sockaddr_family AF_UNSPEC)) = SADDR_SIZE \<and>
   family (setPort 80 HostOrder (Sockaddr_family AF_UNSPEC)) = AF_UNSPEC \<and>
   sin_port (setPort 80 HostOrder (Sockaddr_family AF_UNSPEC)) = 0x5000 \<and>
   setPort 80 HostOrder (Sockaddr_family AF_UNSPEC) \<noteq> Sockaddr_family AF_UNSPEC"
proof -
  have h: "length (saddr (Sockaddr_family AF_UNSPEC)) = SADDR_SIZE" by code_simp
  have f: "family (Sockaddr_family AF_UNSPEC) = AF_UNSPEC" by code_simp
  have p: "sin_port (Sockaddr_family AF_UNSPEC) \<noteq> htons 80" by code_simp
  have q: "htons 80 = 0x5000" by code_simp
  show ?thesis
    using h f p q setPort_frame [OF h, of 80 HostOrder] by simp
qed


section \<open>Move construction and move assignment\<close>

lemma Sockaddr_move_duplicates:
  "length (saddr inAddr) = SADDR_SIZE \<Longrightarrow> saddr (fst (Sockaddr_move inAddr)) = saddr inAddr"
  by (simp add: Sockaddr_move_def CopyMemory_def)

lemma move_assign_duplicates_and_zeroes:
  "length (saddr this) = SADDR_SIZE \<Longrightarrow> length (saddr inAddr) = SADDR_SIZE \<Longrightarrow>
     saddr (fst (move_assign this inAddr)) = saddr inAddr \<and>
     saddr (snd (move_assign this inAddr)) = replicate SADDR_SIZE 0"
  by (simp add: move_assign_def CopyMemory_def ZeroMemory_def)

text \<open>
  Claim C1 asks that move construction and move assignment both copy the buffer and then
  zero the source.  Move assignment does; the move constructor only copies.  Moving
  from 0.0.0.0:8080, the constructor leaves the source as it was, family \<open>AF_INET\<close>
  and port 8080, while assignment from the same source leaves it all zero.
\<close>

theorem Sockaddr_move_keeps_source:
  "fst (Sockaddr_move v4_any_8080) = v4_any_8080 \<and>
   snd (Sockaddr_move v4_any_8080) = v4_any_8080 \<and>
   family (snd (Sockaddr_move v4_any_8080)) = AF_INET \<and>
   port (snd (Sockaddr_move v4_any_8080)) = 8080 \<and>
   saddr (snd (Sockaddr_move v4_any_8080)) \<noteq> replicate SADDR_SIZE 0 \<and>
   saddr (snd (move_assign (Sockaddr_family AF_UNSPEC) v4_any_8080)) = replicate SADDR_SIZE 0"
  by code_simp

section \<open>Wildcard and loopback queries\<close>

lemma saddr_Sockaddr_copy: "saddr (Sockaddr_copy this) = take SADDR_SIZE (saddr this)"
  by (simp add: Sockaddr_copy_def CopyMemory_def)

lemma family_Sockaddr_copy: "family (Sockaddr_copy this) = family this"
  by (simp add: family_def load16_def saddr_Sockaddr_copy SADDR_SIZE_def off_family_def)

lemma sin_port_Sockaddr_copy: "sin_port (Sockaddr_copy this) = sin_port this"
  by (simp add: sin_port_def load16_def saddr_Sockaddr_copy SADDR_SIZE_def off_port_def)

text \<open>
  Claim C8.  On an instance whose family is neither \<open>AF_INET\<close> nor \<open>AF_INET6\<close> (a
  default-constructed one, say) \<open>isAddressAny()\<close> returns true: \<open>setAddressAny()\<close> leaves
  the scratch copy as it is, and the comparison with the original succeeds.
\<close>

theorem isAddressAny_other_family:
  "family this \<noteq> AF_INET \<Longrightarrow> family this \<noteq> AF_INET6 \<Longrightarrow>
     setAddressAny (Sockaddr_copy this) = Sockaddr_copy this \<and>
     isAddressAny this = (True, this)"
proof -
  assume a: "family this \<noteq> AF_INET" "family this \<noteq> AF_INET6"
  have noop: "setAddressAny (Sockaddr_copy this) = Sockaddr_copy this"
    using a by (auto simp: setAddressAny_def family_Sockaddr_copy)
  have "memcmp_eq (saddr (Sockaddr_copy this)) (saddr this) SADDR_SIZE"
    by (simp add: memcmp_eq_def saddr_Sockaddr_copy)
  with noop show ?thesis by (simp add: isAddressAny_def)
qed

theorem isAddressAny_other_family_witness:
  "family (Sockaddr_family AF_UNSPEC) \<noteq> AF_INET \<and>
   family (Sockaddr_family AF_UNSPEC) \<noteq> AF_INET6 \<and>
   isAddressAny (Sockaddr_family AF_UNSPEC) = (True, Sockaddr_family AF_UNSPEC)"
proof -
  have h1: "family (Sockaddr_family AF_UNSPEC) \<noteq> AF_INET" by code_simp
  have h2: "family (Sockaddr_family AF_UNSPEC) \<noteq> AF_INET6" by code_simp
  show ?thesis using h1 h2 isAddressAny_other_family [OF h1 h2] by simp
qed

text \<open>
  Claim C9.  \<open>isAddressLoopback()\<close> on an instance whose family is neither \<open>AF_INET\<close> nor
  \<open>AF_INET6\<close> reaches the fatal condition of \<open>setAddressLoopback()\<close>; when the family
  is one of the two, the call returns an answer and the instance is as before.
\<close>

theorem isAddressLoopback_fatal:
  "(family this \<noteq> AF_INET \<and> family this \<noteq> AF_INET6 \<longrightarrow>
       isAddressLoopback this = Inl FatalCondition) \<and>
   (family this = AF_INET \<or> family this = AF_INET6 \<longrightarrow>
       (\<exists>b. isAddressLoopback this = Inr (b, this)))"
  by (auto simp: isAddressLoopback_def setAddressLoopback_def family_Sockaddr_copy Let_def)

theorem isAddressLoopback_fatal_witness:
  "(family (Sockaddr_family AF_UNSPEC) \<noteq> AF_INET \<and>
    family (Sockaddr_family AF_UNSPEC) \<noteq> AF_INET6 \<and>
    isAddressLoopback (Sockaddr_family AF_UNSPEC) = Inl FatalCondition) \<and>
   (family (Sockaddr_family AF_INET) = AF_INET \<and>
    (\<exists>b. isAddressLoopback (Sockaddr_family AF_INET) = Inr (b, Sockaddr_family AF_INET)))"
proof -
  have h1: "family (Sockaddr_family AF_UNSPEC) \<noteq> AF_INET" by code_simp
  have h2: "family (Sockaddr_family AF_UNSPEC) \<noteq> AF_INET6" by code_simp
  have h3: "family (Sockaddr_family AF_INET) = AF_INET" by code_simp
  show ?thesis
    using h1 h2 h3 isAddressLoopback_fatal [of "Sockaddr_family AF_UNSPEC"]
      isAddressLoopback_fatal [of "Sockaddr_family AF_INET"]
    by simp
qed


section \<open>Setting the loopback address\<close>

lemma ZeroMemory_full: "length buf = n \<Longrightarrow> ZeroMemory buf n = replicate n 0"
  by (simp add: ZeroMemory_def)

lemma replicate_128:
  "replicate 128 (x::'a) = [x,x,x,x,x,x,x,x] @ replicate 120 x"
  "replicate 120 (x::'a) = [x,x,x,x,x,x,x,x,x,x,x,x,x,x,x,x] @ replicate 104 x"
proof -
  have "replicate 128 x = replicate 8 x @ replicate 120 x"
    by (simp add: replicate_add [symmetric])
  then show "replicate 128 x = [x,x,x,x,x,x,x,x] @ replicate 120 x"
    by (simp add: numeral_eq_Suc)
  have "replicate 120 x = replicate 16 x @ replicate 104 x"
    by (simp add: replicate_add [symmetric])
  then show "replicate 120 x = [x,x,x,x,x,x,x,x,x,x,x,x,x,x,x,x] @ replicate 104 x"
    by (simp add: numeral_eq_Suc)
qed

lemma loopback4_word: "(ucast (0x0100007f :: 32 word) :: byte) = 0x7f"
  "(ucast (drop_bit 8 (0x0100007f :: 32 word)) :: byte) = 0"
  "(ucast (drop_bit 16 (0x0100007f :: 32 word)) :: byte) = 0"
  "(ucast (drop_bit 24 (0x0100007f :: 32 word)) :: byte) = 1"
  by code_simp+

lemma family_bytes:
  "(ucast AF_INET :: byte) = 2" "(ucast (drop_bit 8 AF_INET) :: byte) = 0"
  "(ucast AF_INET6 :: byte) = 23" "(ucast (drop_bit 8 AF_INET6) :: byte) = 0"
  by code_simp+

lemma AF_distinct: "AF_INET \<noteq> AF_INET6" by (simp add: AF_INET_def AF_INET6_def)

text \<open>
  Claim C2.  \<open>setAddressLoopback()\<close> rewrites the buffer to the loopback address of the
  current family: for \<open>AF_INET\<close> the bytes 127.0.0.1 at the address field, for \<open>AF_INET6\<close>
  the sixteen bytes of \<open>::1\<close>; the two port bytes stay, every other byte is zero.  It
  ends in the fatal condition exactly when the family is neither of the two.
\<close>

theorem setAddressLoopback_spec:
  assumes "length (saddr this) = SADDR_SIZE"
  shows "(family this = AF_INET \<longrightarrow>
            setAddressLoopback this =
              Inr \<lparr>saddr = [2, 0, saddr this ! 2, saddr this ! 3, 127, 0, 0, 1]
                             @ replicate 120 0\<rparr>) \<and>
         (family this = AF_INET6 \<longrightarrow>
            setAddressLoopback this =
              Inr \<lparr>saddr = [23, 0, saddr this ! 2, saddr this ! 3, 0, 0, 0, 0,
                              0, 0, 0, 0, 0, 0, 0, 0, 0, 0, 0, 0, 0, 0, 0, 1]
                             @ replicate 104 0\<rparr>) \<and>
         (setAddressLoopback this = Inl FatalCondition \<longleftrightarrow>
            family this \<noteq> AF_INET \<and> family this \<noteq> AF_INET6)"
proof -
  have z: "ZeroMemory (saddr this) SADDR_SIZE = replicate 128 0"
    using assms by (simp add: ZeroMemory_full SADDR_SIZE_def)
  have v4: "family this = AF_INET \<longrightarrow>
            setAddressLoopback this =
              Inr \<lparr>saddr = [2, 0, saddr this ! 2, saddr this ! 3, 127, 0, 0, 1]
                             @ replicate 120 0\<rparr>"
    by (simp add: setAddressLoopback_def Let_def z sin_port_def store16_def store32_def
        off_family_def off_port_def off_sin_addr_def replicate_128(1)
        ucast_load16_lo ucast_load16_hi loopback4_word family_bytes)
  have v6: "family this = AF_INET6 \<longrightarrow>
            setAddressLoopback this =
              Inr \<lparr>saddr = [23, 0, saddr this ! 2, saddr this ! 3, 0, 0, 0, 0,
                              0, 0, 0, 0, 0, 0, 0, 0, 0, 0, 0, 0, 0, 0, 0, 1]
                             @ replicate 104 0\<rparr>"
    using AF_distinct
    by (simp add: setAddressLoopback_def Let_def z sin_port_def store16_def
        off_family_def off_port_def off_sin6_addr_def replicate_128
        ucast_load16_lo ucast_load16_hi family_bytes)
  have fatal: "setAddressLoopback this = Inl FatalCondition \<longleftrightarrow>
            family this \<noteq> AF_INET \<and> family this \<noteq> AF_INET6"
    by (auto simp: setAddressLoopback_def Let_def)
  from v4 v6 fatal show ?thesis by blast
qed


theorem setAddressLoopback_spec_witness:
  "length (saddr (setPort 8080 HostOrder (Sockaddr_family AF_INET))) = SADDR_SIZE \<and>
   family (setPort 8080 HostOrder (Sockaddr_family AF_INET)) = AF_INET \<and>
   setAddressLoopback (setPort 8080 HostOrder (Sockaddr_family AF_INET)) =
     Inr \<lparr>saddr = [2, 0, 0x1F, 0x90, 127, 0, 0, 1] @ replicate 120 0\<rparr> \<and>
   length (saddr (Sockaddr_family AF_INET6)) = SADDR_SIZE \<and>
   family (Sockaddr_family AF_INET6) = AF_INET6 \<and>
   setAddressLoopback (Sockaddr_family AF_INET6) =
     Inr \<lparr>saddr = [23, 0, 0, 0, 0, 0, 0, 0, 0, 0, 0, 0, 0, 0, 0, 0,
                     0, 0, 0, 0, 0, 0, 0, 1] @ replicate 104 0\<rparr> \<and>
   length (saddr (Sockaddr_family AF_UNSPEC)) = SADDR_SIZE \<and>
   family (Sockaddr_family AF_UNSPEC) \<noteq> AF_INET \<and>
   family (Sockaddr_family AF_UNSPEC) \<noteq> AF_INET6 \<and>
   setAddressLoopback (Sockaddr_family AF_UNSPEC) = Inl FatalCondition"
proof -
  let ?a = "setPort 8080 HostOrder (Sockaddr_family AF_INET)"
  have a: "length (saddr ?a) = SADDR_SIZE" "family ?a = AF_INET"
          "saddr ?a ! 2 = 0x1F" "saddr ?a ! 3 = 0x90" by code_simp+
  have b: "length (saddr (Sockaddr_family AF_INET6)) = SADDR_SIZE"
          "family (Sockaddr_family AF_INET6) = AF_INET6"
          "saddr (Sockaddr_family AF_INET6) ! 2 = 0"
          "saddr (Sockaddr_family AF_INET6) ! 3 = 0" by code_simp+
  have c: "length (saddr (Sockaddr_family AF_UNSPEC)) = SADDR_SIZE"
          "family (Sockaddr_family AF_UNSPEC) \<noteq> AF_INET"
          "family (Sockaddr_family AF_UNSPEC) \<noteq> AF_INET6" by code_simp+
  show ?thesis
    using a b c setAddressLoopback_spec [OF a(1)] setAddressLoopback_spec [OF b(1)]
      setAddressLoopback_spec [OF c(1)]
    by simp
qed

section \<open>Properties of the dual-mode mapping\<close>

lemma htons_ntohs: "htons (ntohs v) = v"
  unfolding htons_def ntohs_def
  by (rule bit_word_eqI) (auto simp: bit_simps)

lemma take4_drop4:
  "8 \<le> length s \<Longrightarrow> take 4 (drop 4 s) = [s ! 4, s ! 5, s ! 6, s ! 7]"
  by (auto simp: list_eq_iff_nth_eq nth_Cons' less_Suc_eq numeral_eq_Suc)

text \<open>
  Claim C4.  On an instance holding an IPv4 endpoint, \<open>mapDualMode4To6()\<close> leaves an
  \<open>AF_INET6\<close> value whose address is the v4-mapped prefix (ten zero bytes, \<open>ff ff\<close>)
  followed by the four IPv4 address bytes in their stored order, with the same port;
  every other byte is zero.
\<close>

theorem mapDualMode4To6_spec:
  assumes "length (saddr this) = SADDR_SIZE" and "family this = AF_INET"
  shows "saddr (mapDualMode4To6 this) =
           [23, 0, saddr this ! 2, saddr this ! 3, 0, 0, 0, 0,
            0, 0, 0, 0, 0, 0, 0, 0, 0, 0, 0xff, 0xff] @ in_addr this @ replicate 104 0 \<and>
         family (mapDualMode4To6 this) = AF_INET6 \<and>
         in6_addr (mapDualMode4To6 this) =
           [0, 0, 0, 0, 0, 0, 0, 0, 0, 0, 0xff, 0xff] @ in_addr this \<and>
         port (mapDualMode4To6 this) = port this"
proof -
  let ?s = "saddr this"
  have a4: "in_addr this = [?s ! 4, ?s ! 5, ?s ! 6, ?s ! 7]"
    using assms(1) by (simp add: in_addr_def off_sin_addr_def SADDR_SIZE_def take4_drop4)
  have buf: "saddr (mapDualMode4To6 this) =
           [23, 0, ?s ! 2, ?s ! 3, 0, 0, 0, 0,
            0, 0, 0, 0, 0, 0, 0, 0, 0, 0, 0xff, 0xff, ?s ! 4, ?s ! 5, ?s ! 6, ?s ! 7]
           @ replicate 104 0"
    by (simp add: mapDualMode4To6_def Let_def Sockaddr_family_def ZeroMemory_def
        SADDR_SIZE_def swap_saddr_def setPort_def port_def sin_port_def htons_ntohs
        write_bytes_def IN6ADDR_V4MAPPEDPREFIX_INIT_def store16_def
        off_family_def off_port_def off_sin_addr_def off_sin6_addr_def replicate_128
        ucast_load16_lo ucast_load16_hi family_bytes)
  have fam: "family (mapDualMode4To6 this) = AF_INET6"
    by (simp add: family_def buf off_family_def load16_def AF_INET6_def)
  have a6: "in6_addr (mapDualMode4To6 this) =
           [0, 0, 0, 0, 0, 0, 0, 0, 0, 0, 0xff, 0xff] @ in_addr this"
    by (simp add: in6_addr_def buf off_sin6_addr_def a4)
  have p: "port (mapDualMode4To6 this) = port this"
    by (simp add: port_def sin_port_def buf off_port_def load16_def)
  from buf a4 fam a6 p show ?thesis by simp
qed

theorem mapDualMode4To6_spec_witness:
  "length (saddr v4_1_2_3_4_port_80) = SADDR_SIZE \<and>
   family v4_1_2_3_4_port_80 = AF_INET \<and>
   port v4_1_2_3_4_port_80 = 80 \<and>
   in_addr v4_1_2_3_4_port_80 = [1, 2, 3, 4] \<and>
   family (mapDualMode4To6 v4_1_2_3_4_port_80) = AF_INET6 \<and>
   in6_addr (mapDualMode4To6 v4_1_2_3_4_port_80) =
     [0, 0, 0, 0, 0, 0, 0, 0, 0, 0, 0xff, 0xff, 1, 2, 3, 4] \<and>
   port (mapDualMode4To6 v4_1_2_3_4_port_80) = 80"
proof -
  have h: "length (saddr v4_1_2_3_4_port_80) = SADDR_SIZE"
          "family v4_1_2_3_4_port_80 = AF_INET" by code_simp+
  have v: "port v4_1_2_3_4_port_80 = 80" "in_addr v4_1_2_3_4_port_80 = [1, 2, 3, 4]"
    by code_simp+
  show ?thesis
    using h v mapDualMode4To6_spec [OF h] by simp
qed

section \<open>Properties of setting the address from text\<close>

lemma static_cast_int_small: "n < 2 ^ 31 \<Longrightarrow> static_cast_int n = int n"
proof -
  assume a: "n < 2 ^ 31"
  have "uint (word_of_nat n :: 32 word) = int n"
    using a by (simp add: uint_nat unat_of_nat take_bit_nat_eq_self)
  then have "sint (word_of_nat n :: 32 word) = signed_take_bit 31 (int n)"
    by (simp add: sint_uint)
  also have "\<dots> = int n"
    using a by (simp add: signed_take_bit_int_eq_self)
  finally show ?thesis by (simp add: static_cast_int_def)
qed

lemma size_t_of_int_small: "n < 2 ^ 31 \<Longrightarrow> size_t_of_int (int n) = n"
  by (simp add: size_t_of_int_def)

lemma setSockaddr_small:
  assumes "length (saddr this) = SADDR_SIZE" and "n < 2 ^ 31"
  shows "setSockaddr src (static_cast_int n) this =
           \<lparr>saddr = take (min n SADDR_SIZE) src
                      @ replicate (SADDR_SIZE - min n SADDR_SIZE) 0\<rparr>"
proof -
  have z: "ZeroMemory (saddr this) SADDR_SIZE = replicate SADDR_SIZE 0"
    using assms(1) by (rule ZeroMemory_full)
  have "(if n \<le> SADDR_SIZE then n else SADDR_SIZE) = min n SADDR_SIZE"
    by simp
  then show ?thesis
    using assms(2)
    by (simp add: setSockaddr_def Let_def static_cast_int_small size_t_of_int_small z
        CopyMemory_def)
qed

text \<open>
  Claim C3, as stated, fails on the port.  The instance 0.0.0.0:8080 is given the
  literal \<open>10.0.0.1\<close>, which names no port; the call succeeds and the port is 0
  afterwards, not 8080.
\<close>

theorem setAddress_overwrites_port:
  "fst (setAddress resolve_10_0_0_1 ''10.0.0.1'' v4_any_8080) = True \<and>
   port v4_any_8080 = 8080 \<and>
   port (snd (setAddress resolve_10_0_0_1 ''10.0.0.1'' v4_any_8080)) = 0"
  by code_simp

text \<open>
  Claim C3, amended.  When the resolver fails, \<open>setAddress\<close> returns false and the
  instance is unchanged.  When it succeeds, \<open>setAddress\<close> returns true and the whole buffer
  is the first \<open>min(ai_addrlen, SADDR_SIZE)\<close> bytes of the returned structure followed by
  zeros: family and port are those of the returned structure, and nothing of the previous
  buffer, its port included, is kept.
\<close>

theorem setAddress_spec:
  assumes "length (saddr this) = SADDR_SIZE"
  shows "(GetAddrInfo szAddr = None \<longrightarrow>
            setAddress GetAddrInfo szAddr this = (False, this)) \<and>
         (\<forall>r. GetAddrInfo szAddr = Some r \<and> ai_addrlen r < 2 ^ 31 \<longrightarrow>
            setAddress GetAddrInfo szAddr this =
              (True, \<lparr>saddr = take (min (ai_addrlen r) SADDR_SIZE) (ai_addr r)
                         @ replicate (SADDR_SIZE - min (ai_addrlen r) SADDR_SIZE) 0\<rparr>)) \<and>
         (\<forall>r. GetAddrInfo szAddr = Some r \<and> 4 \<le> ai_addrlen r \<and> ai_addrlen r < 2 ^ 31 \<and>
              ai_addrlen r \<le> length (ai_addr r) \<longrightarrow>
            length (saddr (snd (setAddress GetAddrInfo szAddr this))) = SADDR_SIZE \<and>
            family (snd (setAddress GetAddrInfo szAddr this)) = load16 (ai_addr r) 0 \<and>
            sin_port (snd (setAddress GetAddrInfo szAddr this)) = load16 (ai_addr r) 2)"
proof -
  have fail: "GetAddrInfo szAddr = None \<longrightarrow>
            setAddress GetAddrInfo szAddr this = (False, this)"
    by (simp add: setAddress_def)
  have ok: "setAddress GetAddrInfo szAddr this =
              (True, \<lparr>saddr = take (min (ai_addrlen r) SADDR_SIZE) (ai_addr r)
                         @ replicate (SADDR_SIZE - min (ai_addrlen r) SADDR_SIZE) 0\<rparr>)"
    if "GetAddrInfo szAddr = Some r" "ai_addrlen r < 2 ^ 31" for r
    using that by (simp add: setAddress_def setSockaddr_small [OF assms])
  have fields: "length (saddr (snd (setAddress GetAddrInfo szAddr this))) = SADDR_SIZE \<and>
            family (snd (setAddress GetAddrInfo szAddr this)) = load16 (ai_addr r) 0 \<and>
            sin_port (snd (setAddress GetAddrInfo szAddr this)) = load16 (ai_addr r) 2"
    if r: "GetAddrInfo szAddr = Some r" "4 \<le> ai_addrlen r" "ai_addrlen r < 2 ^ 31"
       "ai_addrlen r \<le> length (ai_addr r)" for r
  proof -
    let ?n = "min (ai_addrlen r) SADDR_SIZE"
    have n: "4 \<le> ?n" "?n \<le> length (ai_addr r)" "?n \<le> SADDR_SIZE"
      using r by (simp_all add: SADDR_SIZE_def)
    have nth: "(take ?n (ai_addr r) @ replicate (SADDR_SIZE - ?n) 0) ! i = ai_addr r ! i"
      if "i < 4" for i
      using that n by (simp add: nth_append)
    show ?thesis
      using n nth [of 0] nth [of 1] nth [of 2] nth [of 3]
      by (simp add: ok [OF r(1) r(3)] family_def sin_port_def load16_def
          off_family_def off_port_def)
  qed
  from fail ok fields show ?thesis by blast
qed

theorem setAddress_spec_witness:
  "length (saddr v4_any_8080) = SADDR_SIZE \<and>
   resolve_10_0_0_1 ''not-an-ip'' = None \<and>
   setAddress resolve_10_0_0_1 ''not-an-ip'' v4_any_8080 = (False, v4_any_8080) \<and>
   resolve_10_0_0_1 ''10.0.0.1'' =
     Some \<lparr>ai_addr = [2, 0, 0, 0, 10, 0, 0, 1, 0, 0, 0, 0, 0, 0, 0, 0], ai_addrlen = 16\<rparr> \<and>
   setAddress resolve_10_0_0_1 ''10.0.0.1'' v4_any_8080 =
     (True, \<lparr>saddr = [2, 0, 0, 0, 10, 0, 0, 1, 0, 0, 0, 0, 0, 0, 0, 0] @ replicate 112 0\<rparr>) \<and>
   family (snd (setAddress resolve_10_0_0_1 ''10.0.0.1'' v4_any_8080)) = AF_INET \<and>
   sin_port (snd (setAddress resolve_10_0_0_1 ''10.0.0.1'' v4_any_8080)) = 0"
proof -
  let ?r = "\<lparr>ai_addr = [2, 0, 0, 0, 10, 0, 0, 1, 0, 0, 0, 0, 0, 0, 0, 0], ai_addrlen = 16\<rparr>"
  have h: "length (saddr v4_any_8080) = SADDR_SIZE" by code_simp
  have n: "resolve_10_0_0_1 ''not-an-ip'' = None" by code_simp
  have s: "resolve_10_0_0_1 ''10.0.0.1'' = Some ?r" by code_simp
  have l: "ai_addrlen ?r < 2 ^ 31" "4 \<le> ai_addrlen ?r" "ai_addrlen ?r \<le> length (ai_addr ?r)"
    by simp_all
  have m: "take (min (ai_addrlen ?r) SADDR_SIZE) (ai_addr ?r) = ai_addr ?r"
          "SADDR_SIZE - min (ai_addrlen ?r) SADDR_SIZE = 112"
    by (simp_all add: SADDR_SIZE_def)
  have v: "load16 (ai_addr ?r) 0 = AF_INET" "load16 (ai_addr ?r) 2 = 0" by code_simp+
  from setAddress_spec [OF h, of resolve_10_0_0_1 "''not-an-ip''"] n
  have 1: "setAddress resolve_10_0_0_1 ''not-an-ip'' v4_any_8080 = (False, v4_any_8080)"
    by simp
  from setAddress_spec [OF h, of resolve_10_0_0_1 "''10.0.0.1''"] s l
  have 2: "setAddress resolve_10_0_0_1 ''10.0.0.1'' v4_any_8080 =
     (True, \<lparr>saddr = take (min (ai_addrlen ?r) SADDR_SIZE) (ai_addr ?r)
                         @ replicate (SADDR_SIZE - min (ai_addrlen ?r) SADDR_SIZE) 0\<rparr>)"
    and 3: "family (snd (setAddress resolve_10_0_0_1 ''10.0.0.1'' v4_any_8080)) = load16 (ai_addr ?r) 0"
    and 4: "sin_port (snd (setAddress resolve_10_0_0_1 ''10.0.0.1'' v4_any_8080)) = load16 (ai_addr ?r) 2"
    by blast+
  show ?thesis
    using h n s 1 2 3 4 by (simp only: m v) simp
qed

section \<open>Removing the scope segment\<close>

lemma std_find_from:
  "first_it \<le> last_it \<Longrightarrow> last_it \<le> length a \<Longrightarrow>
     std_find a first_it last_it v =
       first_it + length (takeWhile (\<lambda>c. c \<noteq> v) (drop first_it (take last_it a)))"
proof (induction a first_it last_it v rule: std_find.induct)
  case (1 a first_it last_it v)
  show ?case
  proof (cases "first_it < last_it")
    case False
    with 1(2) have "first_it = last_it" by simp
    then show ?thesis by (subst std_find.simps) simp
  next
    case True
    then have "first_it < length (take last_it a)"
      using 1(3) by simp
    then have "drop first_it (take last_it a) =
        take last_it a ! first_it # drop (Suc first_it) (take last_it a)"
      by (simp only: Cons_nth_drop_Suc)
    then have d: "drop first_it (take last_it a) =
        a ! first_it # drop (Suc first_it) (take last_it a)"
      using True by simp
    show ?thesis
    proof (cases "a ! first_it = v")
      case True
      with d show ?thesis by (subst std_find.simps) simp
    next
      case False
      have "std_find a first_it last_it v = std_find a (first_it + 1) last_it v"
        using \<open>first_it < last_it\<close> False by (subst std_find.simps) simp
      also have "\<dots> = first_it + 1 + length (takeWhile (\<lambda>c. c \<noteq> v)
                              (drop (first_it + 1) (take last_it a)))"
        using \<open>first_it < last_it\<close> False 1(3) by (intro 1(1)) simp_all
      finally show ?thesis using False d by simp
    qed
  qed
qed

lemma std_find_begin:
  "n \<le> length a \<Longrightarrow> std_find a 0 n v = length (takeWhile (\<lambda>c. c \<noteq> v) (take n a))"
  using std_find_from [of 0 n a v] by simp

lemma shift_loop_closed:
  "scope_ptr \<le> move_ptr \<Longrightarrow> move_ptr \<le> end_ptr \<Longrightarrow> end_ptr \<le> length a \<Longrightarrow>
     shift_loop a scope_ptr move_ptr end_ptr =
       Some (take scope_ptr a @ take (end_ptr - move_ptr) (drop move_ptr a)
               @ drop (scope_ptr + (end_ptr - move_ptr)) a)"
proof (induction "end_ptr - move_ptr" arbitrary: a scope_ptr move_ptr)
  case 0
  then have "move_ptr = end_ptr" by simp
  then show ?case by (subst shift_loop.simps) simp
next
  case (Suc k)
  let ?a = "a[scope_ptr := a ! move_ptr]"
  have lt: "move_ptr < end_ptr" "scope_ptr < length a" "move_ptr < length a"
    using Suc.hyps(2) Suc.prems by simp_all
  have k: "k = end_ptr - (move_ptr + 1)" using Suc.hyps(2) by simp
  have ih: "shift_loop ?a (scope_ptr + 1) (move_ptr + 1) end_ptr =
       Some (take (scope_ptr + 1) ?a @ take (end_ptr - (move_ptr + 1)) (drop (move_ptr + 1) ?a)
               @ drop (scope_ptr + 1 + (end_ptr - (move_ptr + 1))) ?a)"
    using Suc.prems lt by (intro Suc.hyps(1) [OF k]) simp_all
  have t1: "take (scope_ptr + 1) ?a = take scope_ptr a @ [a ! move_ptr]"
    using lt by (simp add: take_Suc_conv_app_nth)
  have t2: "drop (move_ptr + 1) ?a = drop (move_ptr + 1) a"
    using Suc.prems(1) by simp
  have e3: "scope_ptr + 1 + (end_ptr - (move_ptr + 1)) = scope_ptr + (end_ptr - move_ptr)"
    using lt by arith
  have t3: "drop (scope_ptr + 1 + (end_ptr - (move_ptr + 1))) ?a =
            drop (scope_ptr + (end_ptr - move_ptr)) a"
    unfolding e3 using lt by (intro drop_update_cancel) arith
  have t4: "take (end_ptr - move_ptr) (drop move_ptr a) =
            a ! move_ptr # take (end_ptr - (move_ptr + 1)) (drop (move_ptr + 1) a)"
  proof -
    have "end_ptr - move_ptr = Suc (end_ptr - (move_ptr + 1))"
      using lt by arith
    moreover have "drop move_ptr a = a ! move_ptr # drop (move_ptr + 1) a"
      using lt by (simp add: Cons_nth_drop_Suc)
    ultimately show ?thesis by (simp only: take_Suc_Cons)
  qed
  have "shift_loop a scope_ptr move_ptr end_ptr =
        shift_loop ?a (scope_ptr + 1) (move_ptr + 1) end_ptr"
    using lt by (subst shift_loop.simps) simp
  then show ?case
    by (simp only: ih t1 t2 t3 t4) simp
qed

lemma zero_loop_closed:
  "scope_ptr \<le> end_ptr \<Longrightarrow> end_ptr \<le> length a \<Longrightarrow>
     zero_loop a scope_ptr end_ptr =
       Some (take scope_ptr a @ replicate (end_ptr - scope_ptr) 0 @ drop end_ptr a)"
proof (induction "end_ptr - scope_ptr" arbitrary: a scope_ptr)
  case 0
  then have "scope_ptr = end_ptr" by simp
  then show ?case by (subst zero_loop.simps) simp
next
  case (Suc k)
  let ?a = "a[scope_ptr := 0]"
  have lt: "scope_ptr < end_ptr" "scope_ptr < length a"
    using Suc.hyps(2) Suc.prems by simp_all
  have k: "k = end_ptr - (scope_ptr + 1)" using Suc.hyps(2) by simp
  have ih: "zero_loop ?a (scope_ptr + 1) end_ptr =
       Some (take (scope_ptr + 1) ?a @ replicate (end_ptr - (scope_ptr + 1)) 0 @ drop end_ptr ?a)"
    using Suc.prems lt by (intro Suc.hyps(1) [OF k]) simp_all
  have t1: "take (scope_ptr + 1) ?a = take scope_ptr a @ [0]"
    using lt by (simp add: take_Suc_conv_app_nth)
  have t2: "drop end_ptr ?a = drop end_ptr a"
    using lt by simp
  have t3: "replicate (end_ptr - scope_ptr) (0::WCHAR) =
            0 # replicate (end_ptr - (scope_ptr + 1)) 0"
    using lt by (simp add: Suc_diff_Suc flip: replicate_Suc)
  have "zero_loop a scope_ptr end_ptr = zero_loop ?a (scope_ptr + 1) end_ptr"
    using lt by (subst zero_loop.simps) simp
  then show ?case
    by (simp only: ih t1 t2 t3) simp
qed


lemma length_takeWhile_less_mem:
  "x \<in> set xs \<Longrightarrow> length (takeWhile (\<lambda>c. c \<noteq> x) xs) < length xs"
  by (induction xs) auto

lemma length_takeWhile_mono:
  "y \<notin> set (takeWhile (\<lambda>c. c \<noteq> x) xs) \<Longrightarrow>
     length (takeWhile (\<lambda>c. c \<noteq> x) xs) \<le> length (takeWhile (\<lambda>c. c \<noteq> y) xs)"
proof (induction xs)
  case Nil
  show ?case by simp
next
  case (Cons a xs)
  show ?case
  proof (cases "a = x")
    case True
    then show ?thesis by simp
  next
    case False
    with Cons.prems have "a \<noteq> y" "y \<notin> set (takeWhile (\<lambda>c. c \<noteq> x) xs)"
      by auto
    with Cons.IH False show ?thesis by simp
  qed
qed

lemma chr_neq: "(0::WCHAR) \<noteq> chr_rbracket" "(0::WCHAR) \<noteq> chr_percent"
  by (simp_all add: chr_rbracket_def chr_percent_def)

lemma trim_scope_segment_closed:
  assumes r: "take n address = s @ [0]" and n: "n \<le> length address"
    and fmt: "chr_percent \<in> set s \<longrightarrow>
              chr_rbracket \<notin> set (takeWhile (\<lambda>c. c \<noteq> chr_percent) s)"
  shows "trim_scope_segment address n =
     Some (if chr_percent \<notin> set s then address
           else if chr_rbracket \<in> set s
           then takeWhile (\<lambda>c. c \<noteq> chr_percent) s @ dropWhile (\<lambda>c. c \<noteq> chr_rbracket) s
                  @ 0 # drop (length (takeWhile (\<lambda>c. c \<noteq> chr_percent) s)
                               + length (dropWhile (\<lambda>c. c \<noteq> chr_rbracket) s) + 1) address
           else takeWhile (\<lambda>c. c \<noteq> chr_percent) s
                  @ replicate (n - length (takeWhile (\<lambda>c. c \<noteq> chr_percent) s)) 0
                  @ drop n address)"
proof -
  let ?pre = "takeWhile (\<lambda>c. c \<noteq> chr_percent) s"
  let ?post = "dropWhile (\<lambda>c. c \<noteq> chr_rbracket) s"
  let ?mid = "takeWhile (\<lambda>c. c \<noteq> chr_rbracket) s"
  have "length (take n address) = length (s @ [0])"
    by (simp only: r)
  then have len: "n = length s + 1"
    using n by simp
  have "address = take n address @ drop n address"
    by simp
  then have addr: "address = s @ 0 # drop n address"
    by (simp only: r append.assoc append_Cons append_Nil)
  have p: "std_find address 0 n chr_percent =
             length (takeWhile (\<lambda>c. c \<noteq> chr_percent) (s @ [0]))"
    using n by (simp add: std_find_begin r)
  have q: "std_find address 0 n chr_rbracket =
             length (takeWhile (\<lambda>c. c \<noteq> chr_rbracket) (s @ [0]))"
    using n by (simp add: std_find_begin r)
  show ?thesis
  proof (cases "chr_percent \<in> set s")
    case False
    then have "takeWhile (\<lambda>c. c \<noteq> chr_percent) (s @ [0]) = s @ [0]"
      using chr_neq by (auto simp: takeWhile_append2)
    then have "std_find address 0 n chr_percent = n"
      using p len by simp
    with False show ?thesis by (simp add: trim_scope_segment_def)
  next
    case True
    then have p': "std_find address 0 n chr_percent = length ?pre"
      using p by (simp add: takeWhile_append1)
    have pl: "length ?pre < length s"
      using True by (rule length_takeWhile_less_mem)
    have pre_take: "take (length ?pre) address = ?pre"
      using pl by (subst addr) (simp add: takeWhile_eq_take [symmetric])
    show ?thesis
    proof (cases "chr_rbracket \<in> set s")
      case False
      then have "takeWhile (\<lambda>c. c \<noteq> chr_rbracket) (s @ [0]) = s @ [0]"
        using chr_neq by (auto simp: takeWhile_append2)
      then have q': "std_find address 0 n chr_rbracket = n"
        using q len by simp
      have "trim_scope_segment address n = zero_loop address (length ?pre) n"
        using p' q' pl len by (simp add: trim_scope_segment_def)
      also have "\<dots> = Some (take (length ?pre) address
                           @ replicate (n - length ?pre) 0 @ drop n address)"
        using pl len n by (intro zero_loop_closed) simp_all
      finally show ?thesis using True False pre_take by simp
    next
      case B: True
      then have q': "std_find address 0 n chr_rbracket = length ?mid"
        using q by (simp add: takeWhile_append1)
      have ml: "length ?mid < length s"
        using B by (rule length_takeWhile_less_mem)
      have pm: "length ?pre \<le> length ?mid"
        using fmt True by (intro length_takeWhile_mono) simp
      have post: "?post = drop (length ?mid) s"
        by (rule dropWhile_eq_drop)
      have dq: "drop (length ?mid) address = ?post @ 0 # drop n address"
        using ml by (subst addr) (simp add: post)
      have lp: "length ?post = length s - length ?mid"
        by (simp add: post)
      have tq: "take (n - length ?mid) (drop (length ?mid) address) = ?post @ [0]"
        using ml len lp by (simp add: dq)
      have idx: "length ?pre + (n - length ?mid) = length ?pre + length ?post + 1"
        using ml len lp by simp
      have "trim_scope_segment address n = shift_loop address (length ?pre) (length ?mid) n"
        using p' q' pl ml len by (simp add: trim_scope_segment_def)
      also have "\<dots> = Some (take (length ?pre) address
                           @ take (n - length ?mid) (drop (length ?mid) address)
                           @ drop (length ?pre + (n - length ?mid)) address)"
        using pm ml len n by (intro shift_loop_closed) simp_all
      finally show ?thesis using True B by (simp only: pre_take tq idx) simp
    qed
  qed
qed


lemma overwrite_prefix:
  assumes "length X \<le> n" and "n \<le> length a"
  shows "length (X @ drop (length X) a) = length a"
    and "drop n (X @ drop (length X) a) = drop n a"
    and "take n (X @ drop (length X) a) = X @ drop (length X) (take n a)"
  using assms by (simp_all add: drop_take)

lemma c_str_terminated: "0 \<notin> set Y \<Longrightarrow> c_str (Y @ 0 # Z) = Y"
  by (auto simp: c_str_def takeWhile_tail)

lemma trim_scope_segment_prefix_form:
  assumes r: "take n address = s @ [0]" and n: "n \<le> length address"
    and z: "0 \<notin> set s"
    and fmt: "chr_percent \<in> set s \<longrightarrow>
              chr_rbracket \<notin> set (takeWhile (\<lambda>c. c \<noteq> chr_percent) s)"
  shows "\<exists>X. trim_scope_segment address n = Some (X @ drop (length X) address) \<and>
             length X \<le> n \<and>
             X = (if chr_percent \<notin> set s then s @ [0]
                  else if chr_rbracket \<in> set s
                  then takeWhile (\<lambda>c. c \<noteq> chr_percent) s
                         @ dropWhile (\<lambda>c. c \<noteq> chr_rbracket) s @ [0]
                  else takeWhile (\<lambda>c. c \<noteq> chr_percent) s
                         @ replicate (n - length (takeWhile (\<lambda>c. c \<noteq> chr_percent) s)) 0) \<and>
             c_str (X @ drop (length X) address) =
               (if chr_percent \<in> set s
                then takeWhile (\<lambda>c. c \<noteq> chr_percent) s
                       @ dropWhile (\<lambda>c. c \<noteq> chr_rbracket) s
                else s)"
proof -
  let ?pre = "takeWhile (\<lambda>c. c \<noteq> chr_percent) s"
  let ?post = "dropWhile (\<lambda>c. c \<noteq> chr_rbracket) s"
  let ?mid = "takeWhile (\<lambda>c. c \<noteq> chr_rbracket) s"
  note cf = trim_scope_segment_closed [OF r n fmt]
  have "length (take n address) = length (s @ [0])"
    by (simp only: r)
  then have len: "n = length s + 1"
    using n by simp
  have "address = take n address @ drop n address"
    by simp
  then have addr: "address = s @ 0 # drop n address"
    by (simp only: r append.assoc append_Cons append_Nil)
  have zpre: "0 \<notin> set ?pre" using z by (auto dest: set_takeWhileD)
  have zpost: "0 \<notin> set ?post" using z by (auto dest: set_dropWhileD)
  show ?thesis
  proof (cases "chr_percent \<in> set s")
    case False
    have c: "c_str address = s"
      using z by (subst addr) (simp add: c_str_terminated)
    have "(s @ [0]) @ drop (length (s @ [0])) address = address"
      using len addr by simp
    with False cf c len show ?thesis by simp
  next
    case True
    have pl: "length ?pre < length s"
      using True by (rule length_takeWhile_less_mem)
    show ?thesis
    proof (cases "chr_rbracket \<in> set s")
      case False
      then have post: "?post = []" by (auto simp: dropWhile_eq_Nil_conv)
      let ?X = "?pre @ replicate (n - length ?pre) 0"
      have lx: "length ?X = n" using pl len by simp
      have "n - length ?pre = Suc (n - length ?pre - 1)" using pl len by simp
      then have "?X = ?pre @ 0 # replicate (n - length ?pre - 1) 0"
        by (metis replicate_Suc)
      then have c: "c_str (?X @ drop (length ?X) address) = ?pre @ ?post"
        using zpre post by (simp add: c_str_terminated)
      from cf True False lx c show ?thesis by simp
    next
      case B: True
      let ?X = "?pre @ ?post @ [0]"
      have pm: "length ?pre \<le> length ?mid"
        using fmt True by (intro length_takeWhile_mono) simp
      have "length ?mid + length ?post = length s"
        by (metis length_append takeWhile_dropWhile_id)
      then have lx: "length ?X \<le> n" using pm len by simp
      have c: "c_str (?X @ drop (length ?X) address) = ?pre @ ?post"
        using zpre zpost c_str_terminated [of "?pre @ ?post"] by simp
      from cf True B lx c show ?thesis by simp
    qed
  qed
qed


text \<open>
  Claim C5.  \<open>writeCompleteAddress\<close> with \<open>trim_scope\<close> on an \<open>AF_INET6\<close> value.  Let the
  renderer have stored the text \<open>s\<close> and its terminator, \<open>n\<close> characters in all, where
  no \<open>]\<close> stands before the first \<open>%\<close>.  Then the loops return, the array keeps its
  length, and read as a string it is \<open>s\<close> without the scope segment: the part before
  \<open>%\<close> followed by the part from \<open>]\<close> on, or the part before \<open>%\<close> alone, padded with
  zeros up to \<open>n\<close>, when no \<open>]\<close> follows; a text without \<open>%\<close> stays as it is.
  Positions from \<open>n\<close> on are untouched, and the first \<open>n\<close> positions of the result are
  the same for every array with the same first \<open>n\<close> characters, so nothing beyond the
  rendered length is read.
\<close>

theorem trim_scope_segment_spec:
  assumes r: "take n address = s @ [0]" and n: "n \<le> length address"
    and z: "0 \<notin> set s"
    and fmt: "chr_percent \<in> set s \<longrightarrow>
              chr_rbracket \<notin> set (takeWhile (\<lambda>c. c \<noteq> chr_percent) s)"
  shows "\<exists>address'.
           trim_scope_segment address n = Some address' \<and>
           length address' = length address \<and>
           c_str address' =
             (if chr_percent \<in> set s
              then takeWhile (\<lambda>c. c \<noteq> chr_percent) s
                     @ dropWhile (\<lambda>c. c \<noteq> chr_rbracket) s
              else s) \<and>
           (chr_percent \<in> set s \<and> chr_rbracket \<notin> set s \<longrightarrow>
              take n address' =
                takeWhile (\<lambda>c. c \<noteq> chr_percent) s
                  @ replicate (n - length (takeWhile (\<lambda>c. c \<noteq> chr_percent) s)) 0) \<and>
           drop n address' = drop n address \<and>
           (\<forall>other. take n other = take n address \<and> n \<le> length other \<longrightarrow>
              (\<exists>other'. trim_scope_segment other n = Some other' \<and>
                         take n other' = take n address' \<and>
                         drop n other' = drop n other)) \<and>
           (\<forall>W this. family this = AF_INET6 \<and>
                      W (saddr this) SADDR_SIZE IP_STRING_MAX_LENGTH = Some (s @ [0]) \<and>
                      address = s @ 0 # replicate (IP_STRING_MAX_LENGTH - n) 0 \<longrightarrow>
              writeCompleteAddress W this True = Some (True, address'))"
proof -
  let ?pre = "takeWhile (\<lambda>c. c \<noteq> chr_percent) s"
  let ?post = "dropWhile (\<lambda>c. c \<noteq> chr_rbracket) s"
  let ?X = "if chr_percent \<notin> set s then s @ [0]
            else if chr_rbracket \<in> set s then ?pre @ ?post @ [0]
            else ?pre @ replicate (n - length ?pre) 0"
  from trim_scope_segment_prefix_form [OF r n z fmt]
  have t: "trim_scope_segment address n = Some (?X @ drop (length ?X) address)"
    and lx: "length ?X \<le> n"
    and c: "c_str (?X @ drop (length ?X) address) =
              (if chr_percent \<in> set s then ?pre @ ?post else s)"
    by blast+
  let ?a' = "?X @ drop (length ?X) address"
  have "length (take n address) = length (s @ [0])"
    by (simp only: r)
  then have len: "n = length s + 1"
    using n by simp
  note ov = overwrite_prefix [OF lx n]
  have zero: "chr_percent \<in> set s \<and> chr_rbracket \<notin> set s \<longrightarrow>
              take n ?a' = ?pre @ replicate (n - length ?pre) 0"
  proof
    assume h: "chr_percent \<in> set s \<and> chr_rbracket \<notin> set s"
    then have "length ?pre < length s" by (simp add: length_takeWhile_less_mem)
    then have "length (?pre @ replicate (n - length ?pre) 0) = n"
      using len by simp
    with h show "take n ?a' = ?pre @ replicate (n - length ?pre) 0"
      by simp
  qed
  have other: "\<exists>other'. trim_scope_segment other n = Some other' \<and>
                         take n other' = take n ?a' \<and> drop n other' = drop n other"
    if o: "take n other = take n address" "n \<le> length other" for other
  proof -
    have ro: "take n other = s @ [0]" using o(1) r by simp
    from trim_scope_segment_prefix_form [OF ro o(2) z fmt]
    have "trim_scope_segment other n = Some (?X @ drop (length ?X) other)"
      by blast
    moreover have "take n (?X @ drop (length ?X) other) = take n ?a'"
      by (simp only: overwrite_prefix(3) [OF lx o(2)] ov(3) o(1))
    moreover have "drop n (?X @ drop (length ?X) other) = drop n other"
      by (rule overwrite_prefix(2) [OF lx o(2)])
    ultimately show ?thesis by blast
  qed
  have wca: "writeCompleteAddress W this True = Some (True, ?a')"
    if w: "family this = AF_INET6"
          "W (saddr this) SADDR_SIZE IP_STRING_MAX_LENGTH = Some (s @ [0])"
          "address = s @ 0 # replicate (IP_STRING_MAX_LENGTH - n) 0" for W this
  proof -
    have "(s @ [0]) @ drop (length (s @ [0])) (replicate IP_STRING_MAX_LENGTH 0) = address"
      using w(3) len by simp
    then show ?thesis
      using w(1,2) t len by (simp add: writeCompleteAddress_def Let_def)
  qed
  from t ov(1) c zero ov(2) other wca show ?thesis by blast
qed

theorem trim_scope_segment_spec_witness:
  "take 16 buffer_fe80 = text_fe80 @ [0] \<and> 16 \<le> length buffer_fe80 \<and>
   0 \<notin> set text_fe80 \<and> chr_percent \<in> set text_fe80 \<and>
   chr_rbracket \<notin> set (takeWhile (\<lambda>c. c \<noteq> chr_percent) text_fe80) \<and>
   family v6_fe80_1_scope_3_port_443 = AF_INET6 \<and>
   map_option c_str (trim_scope_segment buffer_fe80 16) = Some (wide ''[fe80::1]:443'') \<and>
   map_option (c_str \<circ> snd) (writeCompleteAddress render_fe80 v6_fe80_1_scope_3_port_443 True)
     = Some (wide ''[fe80::1]:443'') \<and>
   take 16 buffer_fe80_dirty = take 16 buffer_fe80 \<and> 16 \<le> length buffer_fe80_dirty \<and>
   map_option (take 16) (trim_scope_segment buffer_fe80_dirty 16)
     = map_option (take 16) (trim_scope_segment buffer_fe80 16) \<and>
   map_option (drop 16) (trim_scope_segment buffer_fe80_dirty 16)
     = Some (replicate 49 0x41) \<and>
   take 10 buffer_fe80_noport = text_fe80_noport @ [0] \<and> 10 \<le> length buffer_fe80_noport \<and>
   0 \<notin> set text_fe80_noport \<and>
   chr_rbracket \<notin> set (takeWhile (\<lambda>c. c \<noteq> chr_percent) text_fe80_noport) \<and>
   chr_percent \<in> set text_fe80_noport \<and> chr_rbracket \<notin> set text_fe80_noport \<and>
   map_option c_str (trim_scope_segment buffer_fe80_noport 10) = Some (wide ''fe80::1'') \<and>
   map_option (take 10) (trim_scope_segment buffer_fe80_noport 10)
     = Some (wide ''fe80::1'' @ [0, 0, 0]) \<and>
   take 14 buffer_fe80_noscope = text_fe80_noscope @ [0] \<and>
   14 \<le> length buffer_fe80_noscope \<and> 0 \<notin> set text_fe80_noscope \<and>
   chr_percent \<notin> set text_fe80_noscope \<and>
   map_option c_str (trim_scope_segment buffer_fe80_noscope 14) = Some (wide ''[fe80::1]:443'')"
proof -
  have h1: "take 16 buffer_fe80 = text_fe80 @ [0]" by code_simp
  have h2: "16 \<le> length buffer_fe80" by code_simp
  have h3: "0 \<notin> set text_fe80" by code_simp
  have h5: "chr_percent \<in> set text_fe80" by code_simp
  have h6: "chr_rbracket \<notin> set (takeWhile (\<lambda>c. c \<noteq> chr_percent) text_fe80)" by code_simp
  from h6 have h4: "chr_percent \<in> set text_fe80 \<longrightarrow>
      chr_rbracket \<notin> set (takeWhile (\<lambda>c. c \<noteq> chr_percent) text_fe80)" by blast
  have f: "family v6_fe80_1_scope_3_port_443 = AF_INET6" by code_simp
  have w: "render_fe80 (saddr v6_fe80_1_scope_3_port_443) SADDR_SIZE IP_STRING_MAX_LENGTH
             = Some (text_fe80 @ [0])"
    by (simp add: render_fe80_def)
  have b: "buffer_fe80 = text_fe80 @ 0 # replicate (IP_STRING_MAX_LENGTH - 16) 0"
    by (simp add: buffer_fe80_def IP_STRING_MAX_LENGTH_def)
  have e: "takeWhile (\<lambda>c. c \<noteq> chr_percent) text_fe80
             @ dropWhile (\<lambda>c. c \<noteq> chr_rbracket) text_fe80 = wide ''[fe80::1]:443''"
    by code_simp
  have d1: "take 16 buffer_fe80_dirty = take 16 buffer_fe80" by code_simp
  have d2: "16 \<le> length buffer_fe80_dirty" by code_simp
  have d3: "drop 16 buffer_fe80_dirty = replicate 49 0x41" by code_simp
  from trim_scope_segment_spec [OF h1 h2 h3 h4] obtain a' where
      1: "trim_scope_segment buffer_fe80 16 = Some a'"
  and 2: "c_str a' = (if chr_percent \<in> set text_fe80
             then takeWhile (\<lambda>c. c \<noteq> chr_percent) text_fe80
                    @ dropWhile (\<lambda>c. c \<noteq> chr_rbracket) text_fe80
             else text_fe80)"
  and 3: "\<forall>W this. family this = AF_INET6 \<and>
                      W (saddr this) SADDR_SIZE IP_STRING_MAX_LENGTH = Some (text_fe80 @ [0]) \<and>
                      buffer_fe80 = text_fe80 @ 0 # replicate (IP_STRING_MAX_LENGTH - 16) 0 \<longrightarrow>
              writeCompleteAddress W this True = Some (True, a')"
  and o: "\<forall>other. take 16 other = take 16 buffer_fe80 \<and> 16 \<le> length other \<longrightarrow>
              (\<exists>other'. trim_scope_segment other 16 = Some other' \<and>
                         take 16 other' = take 16 a' \<and>
                         drop 16 other' = drop 16 other)"
    by blast
  from 3 f w b have 4:
    "writeCompleteAddress render_fe80 v6_fe80_1_scope_3_port_443 True = Some (True, a')"
    by blast
  from o d1 d2 obtain o' where
      o1: "trim_scope_segment buffer_fe80_dirty 16 = Some o'"
  and o2: "take 16 o' = take 16 a'"
  and o3: "drop 16 o' = drop 16 buffer_fe80_dirty"
    by blast
  have 5: "c_str a' = wide ''[fe80::1]:443''"
    by (simp only: 2 h5 if_True e)
  have 6: "map_option c_str (trim_scope_segment buffer_fe80 16) = Some (wide ''[fe80::1]:443'')"
    by (simp add: 1 5)
  have 7: "map_option (c_str \<circ> snd)
             (writeCompleteAddress render_fe80 v6_fe80_1_scope_3_port_443 True)
           = Some (wide ''[fe80::1]:443'')"
    by (simp add: 4 5)
  have 8: "map_option (take 16) (trim_scope_segment buffer_fe80_dirty 16)
             = map_option (take 16) (trim_scope_segment buffer_fe80 16)"
    by (simp add: 1 o1 o2)
  have 9: "map_option (drop 16) (trim_scope_segment buffer_fe80_dirty 16)
             = Some (replicate 49 0x41)"
    by (simp add: o1 o3 d3)
  have g1: "take 10 buffer_fe80_noport = text_fe80_noport @ [0]" by code_simp
  have g2: "10 \<le> length buffer_fe80_noport" by code_simp
  have g3: "0 \<notin> set text_fe80_noport" by code_simp
  have g7: "chr_rbracket \<notin> set (takeWhile (\<lambda>c. c \<noteq> chr_percent) text_fe80_noport)"
    by code_simp
  from g7 have g4: "chr_percent \<in> set text_fe80_noport \<longrightarrow>
      chr_rbracket \<notin> set (takeWhile (\<lambda>c. c \<noteq> chr_percent) text_fe80_noport)" by blast
  have g5: "chr_percent \<in> set text_fe80_noport" by code_simp
  have g6: "chr_rbracket \<notin> set text_fe80_noport" by code_simp
  have ge: "takeWhile (\<lambda>c. c \<noteq> chr_percent) text_fe80_noport
             @ dropWhile (\<lambda>c. c \<noteq> chr_rbracket) text_fe80_noport = wide ''fe80::1''"
    by code_simp
  have gz: "takeWhile (\<lambda>c. c \<noteq> chr_percent) text_fe80_noport
              @ replicate (10 - length (takeWhile (\<lambda>c. c \<noteq> chr_percent) text_fe80_noport)) 0
            = wide ''fe80::1'' @ [0, 0, 0]"
    by code_simp
  from trim_scope_segment_spec [OF g1 g2 g3 g4] g5 g6 obtain c' where
      c1: "trim_scope_segment buffer_fe80_noport 10 = Some c'"
  and c2: "c_str c' = (if chr_percent \<in> set text_fe80_noport
             then takeWhile (\<lambda>c. c \<noteq> chr_percent) text_fe80_noport
                    @ dropWhile (\<lambda>c. c \<noteq> chr_rbracket) text_fe80_noport
             else text_fe80_noport)"
  and c3: "take 10 c' = takeWhile (\<lambda>c. c \<noteq> chr_percent) text_fe80_noport
              @ replicate (10 - length (takeWhile (\<lambda>c. c \<noteq> chr_percent) text_fe80_noport)) 0"
    by blast
  have 10: "map_option c_str (trim_scope_segment buffer_fe80_noport 10)
              = Some (wide ''fe80::1'')"
    by (simp only: c1 c2 g5 if_True ge option.map)
  have 11: "map_option (take 10) (trim_scope_segment buffer_fe80_noport 10)
              = Some (wide ''fe80::1'' @ [0, 0, 0])"
    by (simp only: c1 c3 gz option.map)
  have n1: "take 14 buffer_fe80_noscope = text_fe80_noscope @ [0]" by code_simp
  have n2: "14 \<le> length buffer_fe80_noscope" by code_simp
  have n3: "0 \<notin> set text_fe80_noscope" by code_simp
  have n5: "chr_percent \<notin> set text_fe80_noscope" by code_simp
  from n5 have n4: "chr_percent \<in> set text_fe80_noscope \<longrightarrow>
      chr_rbracket \<notin> set (takeWhile (\<lambda>c. c \<noteq> chr_percent) text_fe80_noscope)" by blast
  from trim_scope_segment_spec [OF n1 n2 n3 n4] obtain u' where
      u1: "trim_scope_segment buffer_fe80_noscope 14 = Some u'"
  and u2: "c_str u' = (if chr_percent \<in> set text_fe80_noscope
             then takeWhile (\<lambda>c. c \<noteq> chr_percent) text_fe80_noscope
                    @ dropWhile (\<lambda>c. c \<noteq> chr_rbracket) text_fe80_noscope
             else text_fe80_noscope)"
    by blast
  have u3: "c_str u' = text_fe80_noscope"
    by (simp only: u2 n5 if_False)
  have 12: "map_option c_str (trim_scope_segment buffer_fe80_noscope 14)
              = Some (wide ''[fe80::1]:443'')"
    by (simp only: u1 u3 option.map text_fe80_noscope_def)
  from h1 h2 h3 h5 h6 f 6 7 d1 d2 8 9 g1 g2 g3 g7 g5 g6 10 11 n1 n2 n3 n5 12 show ?thesis
    by (intro conjI)
qed

end
